theory Spec2Isabelle
  imports Main
begin

section \<open>Values shared by the three source files\<close>

text \<open>
  A thrown JavaScript value. Every \<^verbatim>\<open>throw\<close> of the sources is
  \<^verbatim>\<open>new Error(message)\<close>, so a thrown value is an \<open>Error\<close> with its message.
\<close>

datatype thrown = Error string

text \<open>
  \<^verbatim>\<open>interface Command { readonly type: string }\<close>. The concrete command classes add
  constructor arguments; they are kept as the \<open>payload\<close>.
\<close>

record Command =
  type :: string
  payload :: "string list"

text \<open>\<^verbatim>\<open>class User { constructor(readonly name: string, readonly email: string) }\<close>\<close>

record User =
  name :: string
  email :: string

section \<open>The command bus (command/query-bus file)\<close>

text \<open>
  \<^verbatim>\<open>interface CommandHandler<T> { handle(command: T): Promise<void> }\<close>.
  A handler is supplied by the caller. It acts on the state \<open>'w\<close> it shares with the
  other handlers (a repository, a log) and its promise either resolves (\<open>Inr ()\<close>) or
  rejects with the value it threw (\<open>Inl e\<close>). The effects it had before throwing stay,
  so the state is returned in both cases. \<open>'w\<close> is everything the handlers can reach.
  The bus is never part of it. The saga being run is not part of it in the first model of
  \<open>run\<close> below (no handler holds a reference to the saga); in the second model,
  \<open>UserCreationSaga_run_live\<close>, the handlers reach the saga object too.
\<close>

type_synonym 'w CommandHandler = "Command \<Rightarrow> 'w \<Rightarrow> (thrown + unit) \<times> 'w"

text \<open>\<^verbatim>\<open>private handlers = new Map<string, CommandHandler<any>>()\<close>\<close>

record 'w CommandBus =
  handlers :: "string \<rightharpoonup> 'w CommandHandler"

definition new_CommandBus :: "'w CommandBus" where
  "new_CommandBus = \<lparr>handlers = Map.empty\<rparr>"

text \<open>\<^verbatim>\<open>register(commandType, handler) { this.handlers.set(commandType, handler); }\<close>\<close>

definition CommandBus_register ::
  "string \<Rightarrow> 'w CommandHandler \<Rightarrow> 'w CommandBus \<Rightarrow> 'w CommandBus" where
  "CommandBus_register commandType handler bus =
     bus\<lparr>handlers := (handlers bus)(commandType \<mapsto> handler)\<rparr>"

text \<open>
  \<^verbatim>\<open>
  async execute(command) {
    const handler = this.handlers.get(command.type);
    if (!handler) throw new Error(`No handler registered for ${command.type}`);
    await handler.handle(command);
  }
  \<close>
\<close>

definition CommandBus_execute ::
  "'w CommandBus \<Rightarrow> Command \<Rightarrow> 'w \<Rightarrow> (thrown + unit) \<times> 'w" where
  "CommandBus_execute bus command w =
     (case handlers bus (type command) of
        None \<Rightarrow> (Inl (Error (''No handler registered for '' @ type command)), w)
      | Some handler \<Rightarrow> handler command w)"

subsection \<open>The repository of the command/query-bus file\<close>

text \<open>
  \<^verbatim>\<open>
  class InMemoryUserRepository implements UserRepository {
    private users: User[] = [];
    async save(user) { this.users.push(user); }
    async findByEmail(email) { return this.users.find((u) => u.email === email) || null; }
  }
  \<close>
  \<open>find\<close> returns the first element that satisfies the test, or \<open>undefined\<close>, which
  \<open>|| null\<close> turns into \<open>null\<close>; \<open>None\<close> stands for \<open>null\<close>.
\<close>

record InMemoryUserRepository =
  users :: "User list"

definition new_InMemoryUserRepository :: InMemoryUserRepository where
  "new_InMemoryUserRepository = \<lparr>users = []\<rparr>"

definition InMemoryUserRepository_save ::
  "User \<Rightarrow> InMemoryUserRepository \<Rightarrow> InMemoryUserRepository" where
  "InMemoryUserRepository_save user repo = repo\<lparr>users := users repo @ [user]\<rparr>"

definition findByEmail :: "string \<Rightarrow> InMemoryUserRepository \<Rightarrow> User option" where
  "findByEmail e repo = List.find (\<lambda>u. email u = e) (users repo)"

subsection \<open>The dispatcher as the specification words it\<close>

text \<open>
  The specification gives \<open>execute\<close> the result type \<open>Result<Unit, DispatchError>\<close> with
  the two errors \<open>NoHandlerRegistered(kind)\<close> and \<open>HandlerFailed(kind, cause)\<close>. This
  second definition follows those words, for comparison with \<open>CommandBus_execute\<close>.
\<close>

datatype DispatchError = NoHandlerRegistered string | HandlerFailed string thrown

definition execute_spec ::
  "'w CommandBus \<Rightarrow> Command \<Rightarrow> 'w \<Rightarrow> (DispatchError + unit) \<times> 'w" where
  "execute_spec bus action w =
     (case handlers bus (type action) of
        None \<Rightarrow> (Inl (NoHandlerRegistered (type action)), w)
      | Some handler \<Rightarrow>
          (case handler action w of
             (Inl cause, w') \<Rightarrow> (Inl (HandlerFailed (type action) cause), w')
           | (Inr u, w') \<Rightarrow> (Inr u, w')))"

subsection \<open>Concrete handlers and buses for the worked examples\<close>

text \<open>
  The examples share a journal (a list of strings) as their state: a handler appends the
  type of the command it was invoked with, so every invocation is visible.
\<close>

definition cmd :: "string \<Rightarrow> Command" where
  "cmd t = \<lparr>type = t, payload = []\<rparr>"

definition journal_ok :: "string list CommandHandler" where
  "journal_ok command w = (Inr (), w @ [type command])"

definition journal_fail :: "string \<Rightarrow> string list CommandHandler" where
  "journal_fail message command w = (Inl (Error message), w @ [type command])"

definition bus_AB :: "string list CommandBus" where
  "bus_AB = CommandBus_register ''B'' (journal_fail ''boom'')
              (CommandBus_register ''A'' (journal_fail ''boom'') new_CommandBus)"

definition bus_ok :: "string list CommandBus" where
  "bus_ok = CommandBus_register ''B'' journal_ok
              (CommandBus_register ''A'' journal_ok new_CommandBus)"

section \<open>The saga (saga file)\<close>

text \<open>
  \<^verbatim>\<open>private steps: { execute: Command; compensate?: Command }[] = []\<close>.
  An absent \<open>compensate\<close> is \<open>None\<close>.
\<close>

record Step =
  execute :: Command
  compensate :: "Command option"

record UserCreationSaga =
  steps :: "Step list"

definition new_UserCreationSaga :: UserCreationSaga where
  "new_UserCreationSaga = \<lparr>steps = []\<rparr>"

text \<open>\<^verbatim>\<open>addStep(execute, compensate?) { this.steps.push({ execute, compensate }); }\<close>\<close>

definition addStep :: "Command \<Rightarrow> Command option \<Rightarrow> UserCreationSaga \<Rightarrow> UserCreationSaga" where
  "addStep e c saga = saga\<lparr>steps := steps saga @ [\<lparr>execute = e, compensate = c\<rparr>]\<rparr>"

text \<open>
  The state \<open>run\<close> works on: the saga object \<open>this\<close>, the local array
  \<open>executedSteps\<close>, the state \<open>world\<close> the handlers act on, and what \<open>run\<close> wrote with
  \<open>console.error\<close>. The field \<open>dispatched\<close> is not in the source: it records, in
  order, the argument of every call \<open>commandBus.execute(...)\<close> that \<open>run\<close> makes, so
  that statements about the dispatch sequence can be made.
\<close>

record 'w RunState =
  this :: UserCreationSaga
  executedSteps :: "Step list"
  world :: 'w
  dispatched :: "Command list"
  console :: "(string \<times> thrown) list"

text \<open>One call \<^verbatim>\<open>await commandBus.execute(command)\<close> made by \<open>run\<close>.\<close>

definition dispatch ::
  "'w CommandBus \<Rightarrow> Command \<Rightarrow> 'w RunState \<Rightarrow> (thrown + unit) \<times> 'w RunState" where
  "dispatch commandBus command st =
     (case CommandBus_execute commandBus command (world st) of
        (r, w') \<Rightarrow> (r, st\<lparr>world := w', dispatched := dispatched st @ [command]\<rparr>))"

text \<open>
  The body of the \<^verbatim>\<open>try\<close> block:
  \<^verbatim>\<open>
  for (const step of this.steps) {
    await commandBus.execute(step.execute);
    executedSteps.push(step);
  }
  \<close>
  The first rejected \<open>execute\<close> leaves the loop with the thrown value.
\<close>

fun run_try ::
  "'w CommandBus \<Rightarrow> Step list \<Rightarrow> 'w RunState \<Rightarrow> (thrown + unit) \<times> 'w RunState" where
  "run_try commandBus [] st = (Inr (), st)"
| "run_try commandBus (step # rest) st =
     (case dispatch commandBus (execute step) st of
        (Inl error, st') \<Rightarrow> (Inl error, st')
      | (Inr _, st') \<Rightarrow>
          run_try commandBus rest (st'\<lparr>executedSteps := executedSteps st' @ [step]\<rparr>))"

text \<open>
  The loop of the \<^verbatim>\<open>catch\<close> block, over the reversed array:
  \<^verbatim>\<open>
  for (const step of executedSteps.reverse()) {
    if (step.compensate) {
      await commandBus.execute(step.compensate);
    }
  }
  \<close>
  Nothing catches a rejected \<open>execute\<close> here: it leaves the loop and \<open>run\<close>.
\<close>

fun run_catch ::
  "'w CommandBus \<Rightarrow> Step list \<Rightarrow> 'w RunState \<Rightarrow> (thrown + unit) \<times> 'w RunState" where
  "run_catch commandBus [] st = (Inr (), st)"
| "run_catch commandBus (step # rest) st =
     (case compensate step of
        None \<Rightarrow> run_catch commandBus rest st
      | Some c \<Rightarrow>
          (case dispatch commandBus c st of
             (Inl error, st') \<Rightarrow> (Inl error, st')
           | (Inr _, st') \<Rightarrow> run_catch commandBus rest st'))"

text \<open>
  \<^verbatim>\<open>
  async run(commandBus: CommandBus): Promise<void> {
    const executedSteps = [];
    try { ... } catch (error) {
      console.error("Saga step failed, triggering compensation", error);
      for (const step of executedSteps.reverse()) { ... }
    }
  }
  \<close>
  The promise of \<open>run\<close> resolves with no value (\<open>Inr ()\<close>) or rejects (\<open>Inl e\<close>).
  \<open>executedSteps.reverse()\<close> reverses the local array in place.
\<close>

definition UserCreationSaga_run ::
  "'w CommandBus \<Rightarrow> UserCreationSaga \<Rightarrow> 'w \<Rightarrow> (thrown + unit) \<times> 'w RunState" where
  "UserCreationSaga_run commandBus saga w =
     (let st0 = \<lparr>this = saga, executedSteps = [], world = w, dispatched = [], console = []\<rparr>
      in case run_try commandBus (steps (this st0)) st0 of
           (Inr _, st) \<Rightarrow> (Inr (), st)
         | (Inl error, st) \<Rightarrow>
             (let st1 = st\<lparr>console := console st @
                          [(''Saga step failed, triggering compensation'', error)]\<rparr>;
                  st2 = st1\<lparr>executedSteps := rev (executedSteps st1)\<rparr>
              in run_catch commandBus (executedSteps st2) st2))"

subsection \<open>The run when handlers hold a reference to the saga\<close>

text \<open>
  A handler is caller code: it may hold the saga object and call the public \<open>addStep\<close> on
  it while \<open>run\<close> is under way. Here the handlers act on the pair of their own state
  and the saga object \<open>this\<close>, and \<open>run\<close> sees what they did to it.
\<close>

definition dispatch_live ::
  "('w \<times> UserCreationSaga) CommandBus \<Rightarrow> Command \<Rightarrow> 'w RunState \<Rightarrow>
     (thrown + unit) \<times> 'w RunState" where
  "dispatch_live commandBus command st =
     (case CommandBus_execute commandBus command (world st, this st) of
        (r, (w', saga')) \<Rightarrow>
          (r, st\<lparr>this := saga', world := w', dispatched := dispatched st @ [command]\<rparr>))"

text \<open>
  \<^verbatim>\<open>for (const step of this.steps)\<close> on the live array: the array iterator keeps an
  index and, at each turn, compares it with the current length of the array and reads the
  element at the index, so a step pushed during the loop is visited as well. A handler
  that pushes a step at every call keeps the loop running for ever; the first argument
  bounds the number of turns, and \<open>None\<close> says the bound was reached.
\<close>

fun run_try_live ::
  "nat \<Rightarrow> ('w \<times> UserCreationSaga) CommandBus \<Rightarrow> nat \<Rightarrow> 'w RunState \<Rightarrow>
     ((thrown + unit) \<times> 'w RunState) option" where
  "run_try_live 0 commandBus i st = None"
| "run_try_live (Suc fuel) commandBus i st =
     (if i < length (steps (this st)) then
        (let step = steps (this st) ! i in
         case dispatch_live commandBus (execute step) st of
           (Inl error, st') \<Rightarrow> Some (Inl error, st')
         | (Inr _, st') \<Rightarrow>
             run_try_live fuel commandBus (Suc i)
               (st'\<lparr>executedSteps := executedSteps st' @ [step]\<rparr>))
      else Some (Inr (), st))"

text \<open>The loop of the \<^verbatim>\<open>catch\<close> block runs over the local array, which no handler can reach.\<close>

fun run_catch_live ::
  "('w \<times> UserCreationSaga) CommandBus \<Rightarrow> Step list \<Rightarrow> 'w RunState \<Rightarrow>
     (thrown + unit) \<times> 'w RunState" where
  "run_catch_live commandBus [] st = (Inr (), st)"
| "run_catch_live commandBus (step # rest) st =
     (case compensate step of
        None \<Rightarrow> run_catch_live commandBus rest st
      | Some c \<Rightarrow>
          (case dispatch_live commandBus c st of
             (Inl error, st') \<Rightarrow> (Inl error, st')
           | (Inr _, st') \<Rightarrow> run_catch_live commandBus rest st'))"

definition UserCreationSaga_run_live ::
  "nat \<Rightarrow> ('w \<times> UserCreationSaga) CommandBus \<Rightarrow> UserCreationSaga \<Rightarrow> 'w \<Rightarrow>
     ((thrown + unit) \<times> 'w RunState) option" where
  "UserCreationSaga_run_live fuel commandBus saga w =
     (let st0 = \<lparr>this = saga, executedSteps = [], world = w, dispatched = [], console = []\<rparr>
      in case run_try_live fuel commandBus 0 st0 of
           None \<Rightarrow> None
         | Some (Inr _, st) \<Rightarrow> Some (Inr (), st)
         | Some (Inl error, st) \<Rightarrow>
             (let st1 = st\<lparr>console := console st @
                          [(''Saga step failed, triggering compensation'', error)]\<rparr>;
                  st2 = st1\<lparr>executedSteps := rev (executedSteps st1)\<rparr>
              in Some (run_catch_live commandBus (executedSteps st2) st2)))"

subsection \<open>Vocabulary for the statements about a run\<close>

text \<open>
  Dispatching a list of commands one after the other from a state \<open>w\<close>, stopping at the
  first that fails: the outcome (the first failure, or success), the commands that were
  dispatched (up to and including the failing one) and the state reached. The claims
  speak of "the first forward step to fail" and of "every dispatch succeeds"; with
  handlers that depend on the state, this is how those conditions are written.
\<close>

fun dispatch_in_order ::
  "'w CommandBus \<Rightarrow> Command list \<Rightarrow> 'w \<Rightarrow> (thrown + unit) \<times> Command list \<times> 'w" where
  "dispatch_in_order bus [] w = (Inr (), [], w)"
| "dispatch_in_order bus (c # cs) w =
     (case CommandBus_execute bus c w of
        (Inl e, w') \<Rightarrow> (Inl e, [c], w')
      | (Inr _, w') \<Rightarrow>
          (case dispatch_in_order bus cs w' of (r, ds, w'') \<Rightarrow> (r, c # ds, w'')))"

text \<open>The compensate actions of a list of steps, in the list's order, absent ones omitted.\<close>

fun compensations :: "Step list \<Rightarrow> Command list" where
  "compensations [] = []"
| "compensations (s # ss) =
     (case compensate s of None \<Rightarrow> compensations ss | Some c \<Rightarrow> c # compensations ss)"

text \<open>
  Step \<open>k\<close> of \<open>ss\<close> is the first whose forward action fails: the forward actions of
  the steps before \<open>k\<close>, dispatched in order from \<open>w\<close>, all succeed, and the forward
  action of step \<open>k\<close>, dispatched in the state they lead to, fails with \<open>e\<close> and leaves
  the state \<open>w1\<close>.
\<close>

definition first_failure ::
  "'w CommandBus \<Rightarrow> Step list \<Rightarrow> 'w \<Rightarrow> nat \<Rightarrow> thrown \<Rightarrow> 'w \<Rightarrow> bool" where
  "first_failure bus ss w k e w1 \<longleftrightarrow>
     k < length ss \<and>
     (case dispatch_in_order bus (map execute (take k ss)) w of
        (Inr _, _, w0) \<Rightarrow> CommandBus_execute bus (execute (ss ! k)) w0 = (Inl e, w1)
      | (Inl _, _, _) \<Rightarrow> False)"

text \<open>No handler registered on the bus changes the saga object it can reach.\<close>

definition handlers_leave_saga :: "('w \<times> UserCreationSaga) CommandBus \<Rightarrow> bool" where
  "handlers_leave_saga bus \<longleftrightarrow>
     (\<forall>t h c w s. handlers bus t = Some h \<longrightarrow> snd (snd (h c (w, s))) = s)"

text \<open>
  A handler that has no reference to the saga, seen as a handler of the second model, and
  a bus of such handlers.
\<close>

definition lift_handler :: "'w CommandHandler \<Rightarrow> ('w \<times> UserCreationSaga) CommandHandler" where
  "lift_handler h c ws = (case h c (fst ws) of (r, w') \<Rightarrow> (r, (w', snd ws)))"

definition lift_bus :: "'w CommandBus \<Rightarrow> ('w \<times> UserCreationSaga) CommandBus" where
  "lift_bus bus = \<lparr>handlers = (\<lambda>t. map_option lift_handler (handlers bus t))\<rparr>"

subsection \<open>Concrete sagas and buses for the worked examples\<close>

text \<open>
  A bus with a journalling handler registered for each of seven command types; the
  handlers of the types listed in \<open>failing\<close> throw.
\<close>

definition order_types :: "string list" where
  "order_types = [''Create'', ''RollbackCreate'', ''Charge'', ''Refund'', ''Ship'',
                  ''CancelShipment'', ''Notify'']"

definition order_bus :: "string list \<Rightarrow> string list CommandBus" where
  "order_bus failing =
     foldr (\<lambda>t. CommandBus_register t
                 (if List.member failing t then journal_fail (''failed: '' @ t) else journal_ok))
       order_types new_CommandBus"

text \<open>The steps \<open>(Create, RollbackCreate), (Charge, Refund), (Ship, none)\<close>.\<close>

definition order_saga :: UserCreationSaga where
  "order_saga =
     addStep (cmd ''Ship'') None
       (addStep (cmd ''Charge'') (Some (cmd ''Refund''))
         (addStep (cmd ''Create'') (Some (cmd ''RollbackCreate'')) new_UserCreationSaga))"

text \<open>
  The steps \<open>(Create, RollbackCreate), (Charge, Refund), (Ship, CancelShipment),
  (Notify, none)\<close>.
\<close>

definition shipping_saga :: UserCreationSaga where
  "shipping_saga =
     addStep (cmd ''Notify'') None
       (addStep (cmd ''Ship'') (Some (cmd ''CancelShipment''))
         (addStep (cmd ''Charge'') (Some (cmd ''Refund''))
           (addStep (cmd ''Create'') (Some (cmd ''RollbackCreate'')) new_UserCreationSaga)))"

text \<open>
  A handler for \<open>Create\<close> that, besides journalling, calls \<open>addStep\<close> on the saga it
  holds, on a bus that also has a plain handler for \<open>Notify\<close>; and the one-step saga
  \<open>(Create, RollbackCreate)\<close>.
\<close>

definition journal_addStep :: "(string list \<times> UserCreationSaga) CommandHandler" where
  "journal_addStep command ws =
     (Inr (), (fst ws @ [type command], addStep (cmd ''Notify'') None (snd ws)))"

definition reentrant_bus :: "(string list \<times> UserCreationSaga) CommandBus" where
  "reentrant_bus =
     CommandBus_register ''Notify'' (lift_handler journal_ok)
       (CommandBus_register ''Create'' journal_addStep new_CommandBus)"

definition create_saga :: UserCreationSaga where
  "create_saga = addStep (cmd ''Create'') (Some (cmd ''RollbackCreate'')) new_UserCreationSaga"

section \<open>The mediator (mediator file)\<close>

text \<open>
  \<^verbatim>\<open>interface Mediator { notify(sender: object, event: string): void }\<close>.
  A mediator acts on a state \<open>'n\<close> of its own (what its notification service did).
\<close>

type_synonym 'n Mediator = "User \<Rightarrow> string \<Rightarrow> 'n \<Rightarrow> 'n"

text \<open>
  \<open>NotificationService\<close> writes one line to the console per email; the state of the
  concrete mediator is the list of lines written.
\<close>

definition sendWelcomeEmail :: "string \<Rightarrow> string list \<Rightarrow> string list" where
  "sendWelcomeEmail e out = out @ [''Sending welcome email to '' @ e]"

definition sendAccountClosureEmail :: "string \<Rightarrow> string list \<Rightarrow> string list" where
  "sendAccountClosureEmail e out = out @ [''Sending account closure email to '' @ e]"

text \<open>
  \<^verbatim>\<open>
  async notify(sender, event) {
    if (event === "UserCreated") {
      console.log("Mediator handling UserCreated event.");
      await this.notificationService.sendWelcomeEmail((sender as User).email);
    } else if (event === "UserDeleted") {
      console.log("Mediator handling UserDeleted event.");
      await this.notificationService.sendAccountClosureEmail((sender as User).email);
    }
  }
  \<close>
\<close>

definition UserMediator_notify :: "string list Mediator" where
  "UserMediator_notify sender event out =
     (if event = ''UserCreated'' then
        sendWelcomeEmail (email sender) (out @ [''Mediator handling UserCreated event.''])
      else if event = ''UserDeleted'' then
        sendAccountClosureEmail (email sender) (out @ [''Mediator handling UserDeleted event.''])
      else out)"

text \<open>
  \<^verbatim>\<open>
  class UserRepository {
    private users: Map<string, User> = new Map();
    private mediator: Mediator;
    async save(user) {
      this.users.set(user.email, user);
      await this.mediator.notify(user, "UserCreated");
    }
    async deleteByEmail(email) {
      const user = this.users.get(email);
      if (user) {
        this.users.delete(email);
        await this.mediator.notify(user, "UserDeleted");
      }
    }
  }
  \<close>
  From here on \<open>users\<close> is this map; the array of the bus file's repository is
  \<open>InMemoryUserRepository.users\<close>.
\<close>

record 'n UserRepository =
  users :: "string \<rightharpoonup> User"
  mediator :: "'n Mediator"

definition new_UserRepository :: "'n Mediator \<Rightarrow> 'n UserRepository" where
  "new_UserRepository m = \<lparr>users = Map.empty, mediator = m\<rparr>"

definition UserRepository_save ::
  "User \<Rightarrow> 'n UserRepository \<Rightarrow> 'n \<Rightarrow> 'n UserRepository \<times> 'n" where
  "UserRepository_save user repo n =
     (repo\<lparr>users := (users repo)(email user \<mapsto> user)\<rparr>, mediator repo user ''UserCreated'' n)"

definition deleteByEmail ::
  "string \<Rightarrow> 'n UserRepository \<Rightarrow> 'n \<Rightarrow> 'n UserRepository \<times> 'n" where
  "deleteByEmail e repo n =
     (case users repo e of
        None \<Rightarrow> (repo, n)
      | Some user \<Rightarrow>
          (repo\<lparr>users := (users repo)(e := None)\<rparr>, mediator repo user ''UserDeleted'' n))"

subsection \<open>Concrete users and a mediator for the worked examples\<close>

text \<open>A mediator that only records the notifications it receives.\<close>

definition recording_mediator :: "(User \<times> string) list Mediator" where
  "recording_mediator sender event log = log @ [(sender, event)]"

definition jane :: User where
  "jane = \<lparr>name = ''Jane Doe'', email = ''jane@example.com''\<rparr>"

definition john :: User where
  "john = \<lparr>name = ''John Doe'', email = ''john@example.com''\<rparr>"

definition johnny :: User where
  "johnny = \<lparr>name = ''Johnny'', email = ''john@example.com''\<rparr>"

section \<open>Theorems about the command bus\<close>

lemma handlers_register:
  "handlers (CommandBus_register k h bus) = (handlers bus)(k \<mapsto> h)"
  by (simp add: CommandBus_register_def)

text \<open>
  C5, as the specification states it, fails on the code: a failure of the handler is not
  wrapped. On a bus whose handlers for \<open>A\<close> and \<open>B\<close> both throw \<open>Error boom\<close>,
  \<open>execute\<close> rejects with that bare value for both commands, so the failure carries no
  kind, while the specification's dispatcher reports \<open>HandlerFailed A\<close> and
  \<open>HandlerFailed B\<close>, two different failures.
\<close>

theorem execute_handler_failure_not_wrapped:
  "fst (CommandBus_execute bus_AB (cmd ''A'') []) = Inl (Error ''boom'')
   \<and> fst (CommandBus_execute bus_AB (cmd ''B'') []) = Inl (Error ''boom'')
   \<and> fst (execute_spec bus_AB (cmd ''A'') []) = Inl (HandlerFailed ''A'' (Error ''boom''))
   \<and> fst (execute_spec bus_AB (cmd ''B'') []) = Inl (HandlerFailed ''B'' (Error ''boom''))
   \<and> fst (execute_spec bus_AB (cmd ''A'') []) \<noteq> fst (execute_spec bus_AB (cmd ''B'') [])"
  by (simp add: CommandBus_execute_def execute_spec_def bus_AB_def handlers_register
      new_CommandBus_def cmd_def journal_fail_def)

text \<open>
  C5, amended: for every action submitted to \<open>execute\<close>: if no handler is registered for
  the action's type, \<open>execute\<close> fails with the error whose message is
  \<open>No handler registered for\<close> followed by that type, and invokes nothing (the state is
  unchanged); if a handler is registered, the outcome and the effects of \<open>execute\<close> are
  exactly those of one invocation of that handler on the action: a failure of the handler
  is propagated as it is, unwrapped, and \<open>execute\<close> succeeds exactly when a handler is
  registered and completes without raising.
\<close>

theorem execute_outcome:
  "(handlers bus (type command) = None \<longrightarrow>
      CommandBus_execute bus command w =
        (Inl (Error (''No handler registered for '' @ type command)), w))
   \<and> (\<forall>handler. handlers bus (type command) = Some handler \<longrightarrow>
        CommandBus_execute bus command w = handler command w)
   \<and> (fst (CommandBus_execute bus command w) = Inr () \<longleftrightarrow>
        (\<exists>handler. handlers bus (type command) = Some handler
           \<and> fst (handler command w) = Inr ()))"
  by (cases "handlers bus (type command)") (simp_all add: CommandBus_execute_def)

theorem execute_outcome_witness:
  "handlers bus_ok (type (cmd ''C'')) = None
   \<and> CommandBus_execute bus_ok (cmd ''C'') [] = (Inl (Error ''No handler registered for C''), [])
   \<and> handlers bus_ok (type (cmd ''A'')) = Some journal_ok
   \<and> CommandBus_execute bus_ok (cmd ''A'') [] = (Inr (), [''A''])
   \<and> handlers bus_AB (type (cmd ''A'')) = Some (journal_fail ''boom'')
   \<and> CommandBus_execute bus_AB (cmd ''A'') [] = (Inl (Error ''boom''), [''A''])"
proof -
  have none: "handlers bus_ok (type (cmd ''C'')) = None"
    by (simp add: bus_ok_def handlers_register new_CommandBus_def cmd_def)
  have ok: "handlers bus_ok (type (cmd ''A'')) = Some journal_ok"
    by (simp add: bus_ok_def handlers_register new_CommandBus_def cmd_def)
  have bad: "handlers bus_AB (type (cmd ''A'')) = Some (journal_fail ''boom'')"
    by (simp add: bus_AB_def handlers_register new_CommandBus_def cmd_def)
  from execute_outcome [of bus_ok "cmd ''C''" "[]"] none
  have 1: "CommandBus_execute bus_ok (cmd ''C'') [] =
             (Inl (Error ''No handler registered for C''), [])"
    by (simp add: cmd_def)
  from execute_outcome [of bus_ok "cmd ''A''" "[]"] ok
  have 2: "CommandBus_execute bus_ok (cmd ''A'') [] = (Inr (), [''A''])"
    by (simp add: cmd_def journal_ok_def)
  from execute_outcome [of bus_AB "cmd ''A''" "[]"] bad
  have 3: "CommandBus_execute bus_AB (cmd ''A'') [] = (Inl (Error ''boom''), [''A''])"
    by (simp add: cmd_def journal_fail_def)
  from none ok bad 1 2 3 show ?thesis by simp
qed

text \<open>
  C6: registering \<open>h1\<close> and then \<open>h2\<close> for the same type leaves the registry as
  registering \<open>h2\<close> alone does; the type maps to \<open>h2\<close> only, and a later \<open>execute\<close> of a
  command of that type is one invocation of \<open>h2\<close>.
\<close>

theorem register_last_wins:
  "CommandBus_register k h2 (CommandBus_register k h1 bus) = CommandBus_register k h2 bus
   \<and> handlers (CommandBus_register k h2 (CommandBus_register k h1 bus)) k = Some h2
   \<and> (type command = k \<longrightarrow>
        CommandBus_execute (CommandBus_register k h2 (CommandBus_register k h1 bus)) command w
          = h2 command w)"
  by (simp add: CommandBus_register_def CommandBus_execute_def)

theorem register_last_wins_witness:
  "type (cmd ''A'') = ''A''
   \<and> CommandBus_execute
        (CommandBus_register ''A'' journal_ok
          (CommandBus_register ''A'' (journal_fail ''boom'') new_CommandBus))
        (cmd ''A'') [] = (Inr (), [''A''])"
proof -
  have t: "type (cmd ''A'') = ''A''" by (simp add: cmd_def)
  from register_last_wins [of "''A''" journal_ok "journal_fail ''boom''" new_CommandBus
      "cmd ''A''" "[]"] t
  have "CommandBus_execute
          (CommandBus_register ''A'' journal_ok
            (CommandBus_register ''A'' (journal_fail ''boom'') new_CommandBus))
          (cmd ''A'') [] = journal_ok (cmd ''A'') []"
    by blast
  with t show ?thesis by (simp add: journal_ok_def)
qed

section \<open>Theorems about the saga\<close>

subsection \<open>A run, described by the dispatches it makes\<close>

lemma dispatch_in_order_ok:
  "dispatch_in_order bus cs w = (Inr u, ds, w') \<Longrightarrow> ds = cs"
  by (induction cs arbitrary: w ds) (auto split: prod.splits sum.splits)

lemma dispatch_in_order_failed:
  "dispatch_in_order bus cs w = (Inl e, ds, w') \<Longrightarrow>
   ds \<noteq> [] \<and> length ds \<le> length cs \<and> ds = take (length ds) cs"
  by (induction cs arbitrary: w ds) (auto split: prod.splits sum.splits)

lemma run_try_eq:
  "run_try bus ss st =
     (case dispatch_in_order bus (map execute ss) (world st) of
        (Inr u, ds, w') \<Rightarrow>
          (Inr (), st\<lparr>executedSteps := executedSteps st @ ss, world := w',
                       dispatched := dispatched st @ ds\<rparr>)
      | (Inl e, ds, w') \<Rightarrow>
          (Inl e, st\<lparr>executedSteps := executedSteps st @ take (length ds - 1) ss, world := w',
                      dispatched := dispatched st @ ds\<rparr>))"
  by (induction ss arbitrary: st)
    (auto simp: dispatch_def take_Cons' split: prod.splits sum.splits
      dest: dispatch_in_order_failed)

lemma run_catch_eq:
  "run_catch bus ss st =
     (case dispatch_in_order bus (compensations ss) (world st) of
        (r, ds, w') \<Rightarrow> (r, st\<lparr>world := w', dispatched := dispatched st @ ds\<rparr>))"
  by (induction ss arbitrary: st) (auto simp: dispatch_def split: prod.splits sum.splits option.splits)

lemma dispatch_in_order_append:
  "dispatch_in_order bus (xs @ ys) w =
     (case dispatch_in_order bus xs w of
        (Inl e, ds, w') \<Rightarrow> (Inl e, ds, w')
      | (Inr _, ds, w') \<Rightarrow>
          (case dispatch_in_order bus ys w' of (r, ds', w'') \<Rightarrow> (r, ds @ ds', w'')))"
  by (induction xs arbitrary: w) (auto split: prod.splits sum.splits)

lemma first_failure_dispatch:
  assumes "first_failure bus ss w k e w1"
  shows "dispatch_in_order bus (map execute ss) w = (Inl e, map execute (take (Suc k) ss), w1)"
proof -
  from assms have k: "k < length ss" by (simp add: first_failure_def)
  from assms obtain u fs w0 where
    pre: "dispatch_in_order bus (map execute (take k ss)) w = (Inr u, fs, w0)" and
    at: "CommandBus_execute bus (execute (ss ! k)) w0 = (Inl e, w1)"
    by (auto simp: first_failure_def split: prod.splits sum.splits)
  from pre have fs: "fs = map execute (take k ss)" by (rule dispatch_in_order_ok)
  from k have "ss = take k ss @ (ss ! k) # drop (Suc k) ss" by (simp add: id_take_nth_drop)
  then have "map execute ss = map execute (take k ss) @ execute (ss ! k) # map execute (drop (Suc k) ss)"
    by (metis list.simps(9) map_append)
  then have "dispatch_in_order bus (map execute ss) w = (Inl e, fs @ [execute (ss ! k)], w1)"
    using pre at by (simp add: dispatch_in_order_append)
  with fs k show ?thesis by (simp add: take_Suc_conv_app_nth)
qed


lemma run_forward_failed:
  assumes "first_failure bus (steps saga) w k e w1"
    and "dispatch_in_order bus (compensations (rev (take k (steps saga)))) w1 = (r, cs, w2)"
  shows "UserCreationSaga_run bus saga w =
     (r, \<lparr>this = saga, executedSteps = rev (take k (steps saga)), world = w2,
          dispatched = map execute (take (Suc k) (steps saga)) @ cs,
          console = [(''Saga step failed, triggering compensation'', e)]\<rparr>)"
proof -
  from assms(1) have k: "k < length (steps saga)" by (simp add: first_failure_def)
  note fwd = first_failure_dispatch [OF assms(1)]
  from k have len: "length (map execute (take (Suc k) (steps saga))) - 1 = k" by simp
  have tr: "run_try bus (steps saga)
               \<lparr>this = saga, executedSteps = [], world = w, dispatched = [], console = []\<rparr> =
             (Inl e, \<lparr>this = saga, executedSteps = take k (steps saga), world = w1,
                      dispatched = map execute (take (Suc k) (steps saga)), console = []\<rparr>)"
    unfolding run_try_eq by (simp only: RunState.simps fwd prod.case sum.case len) simp
  show ?thesis
    using assms(2) by (simp add: UserCreationSaga_run_def tr run_catch_eq)
qed

subsection \<open>The saga object is only read\<close>

lemma dispatch_this: "this (snd (dispatch bus c st)) = this st"
  by (simp add: dispatch_def split: prod.splits)

lemma run_try_this: "this (snd (run_try bus ss st)) = this st"
proof (induction ss arbitrary: st)
  case Nil
  show ?case by simp
next
  case (Cons s ss)
  obtain r st' where d: "dispatch bus (execute s) st = (r, st')" by (cases "dispatch bus (execute s) st")
  with dispatch_this [of bus "execute s" st] have "this st' = this st" by simp
  with d Cons.IH [of "st'\<lparr>executedSteps := executedSteps st' @ [s]\<rparr>"] show ?case
    by (cases r) simp_all
qed

lemma run_catch_this: "this (snd (run_catch bus ss st)) = this st"
proof (induction ss arbitrary: st)
  case Nil
  show ?case by simp
next
  case (Cons s ss)
  show ?case
  proof (cases "compensate s")
    case None
    with Cons.IH show ?thesis by simp
  next
    case (Some c)
    obtain r st' where d: "dispatch bus c st = (r, st')" by (cases "dispatch bus c st")
    with dispatch_this [of bus c st] have "this st' = this st" by simp
    with d Some Cons.IH [of st'] show ?thesis by (cases r) simp_all
  qed
qed

lemma run_this: "this (snd (UserCreationSaga_run bus saga w)) = saga"
proof -
  let ?st0 = "\<lparr>this = saga, executedSteps = [], world = w, dispatched = [], console = []\<rparr>"
  obtain r st where t: "run_try bus (steps saga) ?st0 = (r, st)"
    by (cases "run_try bus (steps saga) ?st0")
  with run_try_this [of bus "steps saga" ?st0] have st: "this st = saga" by simp
  show ?thesis
  proof (cases r)
    case (Inr u)
    with t st show ?thesis by (simp add: UserCreationSaga_run_def)
  next
    case (Inl e)
    with t st show ?thesis by (simp add: UserCreationSaga_run_def run_catch_this)
  qed
qed

subsection \<open>Handlers that hold the saga\<close>

lemma dispatch_live_this:
  assumes "handlers_leave_saga bus"
  shows "this (snd (dispatch_live bus c st)) = this st"
proof (cases "handlers bus (type c)")
  case None
  then show ?thesis by (simp add: dispatch_live_def CommandBus_execute_def)
next
  case (Some h)
  with assms have "snd (snd (h c (world st, this st))) = this st"
    unfolding handlers_leave_saga_def by blast
  with Some show ?thesis
    by (auto simp: dispatch_live_def CommandBus_execute_def split: prod.splits)
qed

lemma run_try_live_this:
  assumes "handlers_leave_saga bus"
  shows "length (steps (this st)) - i < fuel \<Longrightarrow>
         \<exists>r st'. run_try_live fuel bus i st = Some (r, st') \<and> this st' = this st"
proof (induction fuel arbitrary: i st)
  case 0
  then show ?case by simp
next
  case (Suc fuel)
  show ?case
  proof (cases "i < length (steps (this st))")
    case False
    then show ?thesis by simp
  next
    case True
    let ?step = "steps (this st) ! i"
    obtain r st' where d: "dispatch_live bus (execute ?step) st = (r, st')"
      by (cases "dispatch_live bus (execute ?step) st")
    with dispatch_live_this [OF assms, of "execute ?step" st] have t: "this st' = this st" by simp
    show ?thesis
    proof (cases r)
      case (Inl e)
      with True d t show ?thesis by simp
    next
      case (Inr u)
      let ?st = "st'\<lparr>executedSteps := executedSteps st' @ [?step]\<rparr>"
      from Suc.prems t True have "length (steps (this ?st)) - Suc i < fuel" by simp
      from Suc.IH [OF this] obtain r' st'' where
        "run_try_live fuel bus (Suc i) ?st = Some (r', st'')" and "this st'' = this ?st"
        by blast
      with True d t Inr show ?thesis by simp
    qed
  qed
qed

lemma run_catch_live_this:
  assumes "handlers_leave_saga bus"
  shows "this (snd (run_catch_live bus ss st)) = this st"
proof (induction ss arbitrary: st)
  case Nil
  show ?case by simp
next
  case (Cons s ss)
  show ?case
  proof (cases "compensate s")
    case None
    with Cons.IH show ?thesis by simp
  next
    case (Some c)
    obtain r st' where d: "dispatch_live bus c st = (r, st')" by (cases "dispatch_live bus c st")
    with dispatch_live_this [OF assms, of c st] have "this st' = this st" by simp
    with d Some Cons.IH [of st'] show ?thesis by (cases r) simp_all
  qed
qed

lemma handlers_leave_saga_lift: "handlers_leave_saga (lift_bus bus)"
  by (auto simp: handlers_leave_saga_def lift_bus_def lift_handler_def split: prod.splits)

lemma dispatch_live_lift:
  "dispatch_live (lift_bus bus) c st = dispatch bus c st"
  by (cases "handlers bus (type c)")
     (simp_all add: dispatch_live_def dispatch_def CommandBus_execute_def lift_bus_def
       lift_handler_def split: prod.splits)

lemma run_try_live_lift:
  "length (steps (this st)) - i < fuel \<Longrightarrow>
   run_try_live fuel (lift_bus bus) i st = Some (run_try bus (drop i (steps (this st))) st)"
proof (induction fuel arbitrary: i st)
  case 0
  then show ?case by simp
next
  case (Suc fuel)
  show ?case
  proof (cases "i < length (steps (this st))")
    case False
    then show ?thesis by simp
  next
    case True
    let ?step = "steps (this st) ! i"
    from True have dr: "drop i (steps (this st)) = ?step # drop (Suc i) (steps (this st))"
      by (simp add: Cons_nth_drop_Suc)
    obtain r st' where d: "dispatch bus (execute ?step) st = (r, st')"
      by (cases "dispatch bus (execute ?step) st")
    with dispatch_this [of bus "execute ?step" st] have t: "this st' = this st" by simp
    show ?thesis
    proof (cases r)
      case (Inl e)
      with True d dr show ?thesis by (simp add: dispatch_live_lift)
    next
      case (Inr u)
      let ?st = "st'\<lparr>executedSteps := executedSteps st' @ [?step]\<rparr>"
      from Suc.prems t True have "length (steps (this ?st)) - Suc i < fuel" by simp
      from Suc.IH [OF this] t True d dr Inr show ?thesis by (simp add: dispatch_live_lift)
    qed
  qed
qed

lemma run_catch_live_lift:
  "run_catch_live (lift_bus bus) ss st = run_catch bus ss st"
  by (induction ss arbitrary: st)
     (simp_all add: dispatch_live_lift split: option.splits prod.splits sum.splits)

text \<open>
  With handlers that have no reference to the saga and a bound above the number of steps,
  the second model of \<open>run\<close> is the first.
\<close>

lemma run_live_lift:
  "length (steps saga) < fuel \<Longrightarrow>
   UserCreationSaga_run_live fuel (lift_bus bus) saga w = Some (UserCreationSaga_run bus saga w)"
  by (simp add: UserCreationSaga_run_live_def UserCreationSaga_run_def run_try_live_lift
      run_catch_live_lift split: prod.splits sum.splits)

text \<open>
  C8, as the specification states it, fails on the code: nothing freezes the definition
  during a run. The handler registered for \<open>Create\<close> calls \<open>addStep\<close> on the saga;
  \<open>run\<close>, called on a definition of one step, dispatches the new step as well and
  returns with a definition of two steps.
\<close>

theorem run_live_handler_adds_step:
  "steps create_saga = [\<lparr>execute = cmd ''Create'', compensate = Some (cmd ''RollbackCreate'')\<rparr>]
   \<and> UserCreationSaga_run_live 5 reentrant_bus create_saga [] =
       Some (Inr (),
         \<lparr>this = addStep (cmd ''Notify'') None create_saga,
          executedSteps = steps (addStep (cmd ''Notify'') None create_saga),
          world = [''Create'', ''Notify''],
          dispatched = [cmd ''Create'', cmd ''Notify''],
          console = []\<rparr>)
   \<and> steps (addStep (cmd ''Notify'') None create_saga) =
       [\<lparr>execute = cmd ''Create'', compensate = Some (cmd ''RollbackCreate'')\<rparr>,
        \<lparr>execute = cmd ''Notify'', compensate = None\<rparr>]
   \<and> addStep (cmd ''Notify'') None create_saga \<noteq> create_saga"
  by code_simp

text \<open>
  C8, amended: for every saga definition and every dispatcher none of whose handlers
  changes the saga object, \<open>run\<close> returns (a bound above the number of steps is never
  reached) and does not mutate the definition: whatever the outcome (resolved, or
  rejected out of the compensation loop), the saga object after \<open>run\<close> is the saga
  object before it, so its step sequence has the same length, the same order and the same
  forward and compensate actions. \<open>run\<close> itself only reads \<open>this.steps\<close>, and the
  in-place \<open>reverse()\<close> acts on the local array \<open>executedSteps\<close> only.
\<close>

theorem run_live_does_not_mutate_definition:
  assumes "handlers_leave_saga bus" and "length (steps saga) < fuel"
  shows "\<exists>r st. UserCreationSaga_run_live fuel bus saga w = Some (r, st)
           \<and> this st = saga \<and> steps (this st) = steps saga"
proof -
  let ?st0 = "\<lparr>this = saga, executedSteps = [], world = w, dispatched = [], console = []\<rparr>"
  from assms(2) have "length (steps (this ?st0)) - 0 < fuel" by simp
  from run_try_live_this [OF assms(1) this] obtain r st where
    t: "run_try_live fuel bus 0 ?st0 = Some (r, st)" and st: "this st = saga"
    by auto
  show ?thesis
  proof (cases r)
    case (Inr u)
    with t st show ?thesis by (simp add: UserCreationSaga_run_live_def)
  next
    case (Inl e)
    let ?st2 = "st\<lparr>console := console st @
                   [(''Saga step failed, triggering compensation'', e)],
                 executedSteps := rev (executedSteps st)\<rparr>"
    obtain r' st' where c: "run_catch_live bus (rev (executedSteps st)) ?st2 = (r', st')"
      by (cases "run_catch_live bus (rev (executedSteps st)) ?st2")
    with run_catch_live_this [OF assms(1), of "rev (executedSteps st)" ?st2] st
    have "this st' = saga" by simp
    with t Inl c show ?thesis by (simp add: UserCreationSaga_run_live_def)
  qed
qed

theorem run_live_does_not_mutate_definition_witness:
  "handlers_leave_saga (lift_bus (order_bus [''Ship'']))
   \<and> length (steps order_saga) < 4
   \<and> (\<exists>r st. UserCreationSaga_run_live 4 (lift_bus (order_bus [''Ship''])) order_saga [] =
                Some (r, st)
              \<and> this st = order_saga \<and> steps (this st) = steps order_saga)
   \<and> map_option (\<lambda>x. dispatched (snd x))
        (UserCreationSaga_run_live 4 (lift_bus (order_bus [''Ship''])) order_saga []) =
       Some [cmd ''Create'', cmd ''Charge'', cmd ''Ship'', cmd ''Refund'', cmd ''RollbackCreate'']"
proof -
  have h: "handlers_leave_saga (lift_bus (order_bus [''Ship'']))"
    by (rule handlers_leave_saga_lift)
  have l: "length (steps order_saga) < 4" by code_simp
  have d: "map_option (\<lambda>x. dispatched (snd x))
        (UserCreationSaga_run_live 4 (lift_bus (order_bus [''Ship''])) order_saga []) =
       Some [cmd ''Create'', cmd ''Charge'', cmd ''Ship'', cmd ''Refund'', cmd ''RollbackCreate'']"
    by code_simp
  from run_live_does_not_mutate_definition [OF h l, of "[]"] h l d show ?thesis by blast
qed

text \<open>
  C7, as the specification states it, fails on the code: \<open>addStep\<close> has no guard. After
  a run of the three-step saga (which resolved), \<open>addStep\<close> appends a fourth step.
\<close>

theorem addStep_after_run_appends:
  "steps (addStep (cmd ''Notify'') None
            (this (snd (UserCreationSaga_run (order_bus []) order_saga [])))) =
     [\<lparr>execute = cmd ''Create'', compensate = Some (cmd ''RollbackCreate'')\<rparr>,
      \<lparr>execute = cmd ''Charge'', compensate = Some (cmd ''Refund'')\<rparr>,
      \<lparr>execute = cmd ''Ship'', compensate = None\<rparr>,
      \<lparr>execute = cmd ''Notify'', compensate = None\<rparr>]
   \<and> fst (UserCreationSaga_run (order_bus []) order_saga []) = Inr ()"
  by code_simp

text \<open>
  C7, amended: \<open>addStep\<close> never fails; it appends the step at the end of the ordered
  step sequence whenever it is called, before a run and equally on the saga as a run of it
  has left it. The saga keeps no record that execution has started.
\<close>

theorem addStep_always_appends:
  "steps (addStep e c saga) = steps saga @ [\<lparr>execute = e, compensate = c\<rparr>]
   \<and> steps (addStep e c (this (snd (UserCreationSaga_run bus saga w)))) =
       steps saga @ [\<lparr>execute = e, compensate = c\<rparr>]"
  by (simp add: addStep_def run_this)

subsection \<open>Runs in which every forward action succeeds\<close>



subsection \<open>Runs in which a forward action fails\<close>

lemma dispatch_in_order_prefix:
  "dispatch_in_order bus cs w = (r, ds, w') \<Longrightarrow> ds = take (length ds) cs"
  by (cases r) (auto dest: dispatch_in_order_ok dispatch_in_order_failed)

text \<open>
  C1, as the specification states it, fails on the code: when the forward action of
  \<open>Ship\<close> fails and both compensations succeed, \<open>run\<close> resolves with no value, which
  is what it returns when every step succeeds. The failure was only written to the
  console.
\<close>

theorem run_resolves_after_compensated_failure:
  "fst (UserCreationSaga_run (order_bus [''Ship'']) order_saga []) = Inr ()
   \<and> console (snd (UserCreationSaga_run (order_bus [''Ship'']) order_saga [])) =
       [(''Saga step failed, triggering compensation'', Error ''failed: Ship'')]
   \<and> dispatched (snd (UserCreationSaga_run (order_bus [''Ship'']) order_saga [])) =
       [cmd ''Create'', cmd ''Charge'', cmd ''Ship'', cmd ''Refund'', cmd ''RollbackCreate'']
   \<and> fst (UserCreationSaga_run (order_bus [''Ship'']) order_saga []) =
       fst (UserCreationSaga_run (order_bus []) order_saga [])"
  by code_simp

text \<open>
  C1, amended: if step \<open>k\<close> is the first whose forward action fails, with error \<open>e\<close>,
  then \<open>run\<close> reports \<open>e\<close> once with \<open>console.error\<close> and walks the compensations of
  the steps before \<open>k\<close> in reverse order; the result of \<open>run\<close> is the outcome \<open>r\<close> of
  that walk: \<open>run\<close> resolves with no value, as it does on success, when every attempted
  compensation succeeds, and rejects with the failure of the first compensation that
  fails otherwise. The result carries no step index, no causing error and no list of
  compensation failures.
\<close>

theorem run_result_after_forward_failure:
  assumes "first_failure bus (steps saga) w k e w1"
    and "dispatch_in_order bus (compensations (rev (take k (steps saga)))) w1 = (r, cs, w2)"
  shows "fst (UserCreationSaga_run bus saga w) = r
   \<and> console (snd (UserCreationSaga_run bus saga w)) =
        [(''Saga step failed, triggering compensation'', e)]"
  using run_forward_failed [OF assms] by simp

theorem run_result_after_forward_failure_witness:
  "first_failure (order_bus [''Ship'', ''Refund'']) (steps order_saga) [] 2
     (Error ''failed: Ship'') [''Create'', ''Charge'', ''Ship'']
   \<and> dispatch_in_order (order_bus [''Ship'', ''Refund''])
        (compensations (rev (take 2 (steps order_saga)))) [''Create'', ''Charge'', ''Ship'']
       = (Inl (Error ''failed: Refund''), [cmd ''Refund''],
          [''Create'', ''Charge'', ''Ship'', ''Refund''])
   \<and> fst (UserCreationSaga_run (order_bus [''Ship'', ''Refund'']) order_saga []) =
        Inl (Error ''failed: Refund'')
   \<and> console (snd (UserCreationSaga_run (order_bus [''Ship'', ''Refund'']) order_saga [])) =
        [(''Saga step failed, triggering compensation'', Error ''failed: Ship'')]"
proof -
  have f: "first_failure (order_bus [''Ship'', ''Refund'']) (steps order_saga) [] 2
     (Error ''failed: Ship'') [''Create'', ''Charge'', ''Ship'']"
    by code_simp
  have c: "dispatch_in_order (order_bus [''Ship'', ''Refund''])
        (compensations (rev (take 2 (steps order_saga)))) [''Create'', ''Charge'', ''Ship'']
       = (Inl (Error ''failed: Refund''), [cmd ''Refund''],
          [''Create'', ''Charge'', ''Ship'', ''Refund''])"
    by code_simp
  from run_result_after_forward_failure [OF f c] f c show ?thesis by blast
qed

text \<open>
  C2, as the specification states it, fails on the code: \<open>Ship\<close> fails, the
  compensation \<open>Refund\<close> of the second step fails, and the compensation
  \<open>RollbackCreate\<close> of the first step is never dispatched; \<open>run\<close> rejects with the
  failure of \<open>Refund\<close>.
\<close>

theorem compensation_failure_aborts_walk_example:
  "fst (UserCreationSaga_run (order_bus [''Ship'', ''Refund'']) order_saga []) =
     Inl (Error ''failed: Refund'')
   \<and> dispatched (snd (UserCreationSaga_run (order_bus [''Ship'', ''Refund'']) order_saga [])) =
       [cmd ''Create'', cmd ''Charge'', cmd ''Ship'', cmd ''Refund'']
   \<and> world (snd (UserCreationSaga_run (order_bus [''Ship'', ''Refund'']) order_saga [])) =
       [''Create'', ''Charge'', ''Ship'', ''Refund'']
   \<and> compensate (steps order_saga ! 0) = Some (cmd ''RollbackCreate'')
   \<and> \<not> List.member
         (dispatched (snd (UserCreationSaga_run (order_bus [''Ship'', ''Refund'']) order_saga [])))
         (cmd ''RollbackCreate'')"
  by code_simp

text \<open>
  C2, amended: if step \<open>k\<close> is the first whose forward action fails and, in the
  compensation walk, some compensation dispatch fails with \<open>e'\<close>, then that failure ends
  the walk: \<open>run\<close> rejects with \<open>e'\<close>, and the compensations it dispatched are the
  non-empty prefix \<open>cs\<close> of the reverse-order list that ends with the failing one. The
  compensations of all earlier completed steps are not attempted.
\<close>

theorem run_compensation_failure_aborts:
  assumes "first_failure bus (steps saga) w k e w1"
    and "dispatch_in_order bus (compensations (rev (take k (steps saga)))) w1 = (Inl e', cs, w2)"
  shows "fst (UserCreationSaga_run bus saga w) = Inl e'
   \<and> dispatched (snd (UserCreationSaga_run bus saga w)) =
        map execute (take (Suc k) (steps saga)) @ cs
   \<and> cs \<noteq> []
   \<and> cs = take (length cs) (compensations (rev (take k (steps saga))))
   \<and> world (snd (UserCreationSaga_run bus saga w)) = w2"
  using run_forward_failed [OF assms] dispatch_in_order_failed [OF assms(2)] by simp

theorem run_compensation_failure_aborts_witness:
  "first_failure (order_bus [''Notify'', ''CancelShipment'']) (steps shipping_saga) [] 3
     (Error ''failed: Notify'') [''Create'', ''Charge'', ''Ship'', ''Notify'']
   \<and> dispatch_in_order (order_bus [''Notify'', ''CancelShipment''])
        (compensations (rev (take 3 (steps shipping_saga))))
        [''Create'', ''Charge'', ''Ship'', ''Notify'']
       = (Inl (Error ''failed: CancelShipment''), [cmd ''CancelShipment''],
          [''Create'', ''Charge'', ''Ship'', ''Notify'', ''CancelShipment''])
   \<and> fst (UserCreationSaga_run (order_bus [''Notify'', ''CancelShipment'']) shipping_saga []) =
        Inl (Error ''failed: CancelShipment'')
   \<and> dispatched (snd (UserCreationSaga_run (order_bus [''Notify'', ''CancelShipment''])
        shipping_saga [])) =
        [cmd ''Create'', cmd ''Charge'', cmd ''Ship'', cmd ''Notify'', cmd ''CancelShipment'']
   \<and> compensations (rev (take 3 (steps shipping_saga))) =
        [cmd ''CancelShipment'', cmd ''Refund'', cmd ''RollbackCreate'']"
proof -
  have f: "first_failure (order_bus [''Notify'', ''CancelShipment'']) (steps shipping_saga) [] 3
     (Error ''failed: Notify'') [''Create'', ''Charge'', ''Ship'', ''Notify'']"
    by code_simp
  have c: "dispatch_in_order (order_bus [''Notify'', ''CancelShipment''])
        (compensations (rev (take 3 (steps shipping_saga))))
        [''Create'', ''Charge'', ''Ship'', ''Notify'']
       = (Inl (Error ''failed: CancelShipment''), [cmd ''CancelShipment''],
          [''Create'', ''Charge'', ''Ship'', ''Notify'', ''CancelShipment''])"
    by code_simp
  have t: "map execute (take (Suc 3) (steps shipping_saga)) =
      [cmd ''Create'', cmd ''Charge'', cmd ''Ship'', cmd ''Notify'']"
    by code_simp
  have k: "compensations (rev (take 3 (steps shipping_saga))) =
        [cmd ''CancelShipment'', cmd ''Refund'', cmd ''RollbackCreate'']"
    by code_simp
  from run_compensation_failure_aborts [OF f c] t
  have "fst (UserCreationSaga_run (order_bus [''Notify'', ''CancelShipment'']) shipping_saga []) =
        Inl (Error ''failed: CancelShipment'')
      \<and> dispatched (snd (UserCreationSaga_run (order_bus [''Notify'', ''CancelShipment''])
        shipping_saga [])) =
        [cmd ''Create'', cmd ''Charge'', cmd ''Ship'', cmd ''Notify'', cmd ''CancelShipment'']"
    by simp
  with f c k show ?thesis by blast
qed

text \<open>
  C3, as the specification states it, fails on the code: in the four-step saga
  \<open>Notify\<close> (step 3) is the first forward action to fail; the compensations of the
  steps before it are \<open>CancelShipment, Refund, RollbackCreate\<close>, but
  \<open>CancelShipment\<close> fails and it is the only compensation dispatched.
\<close>

theorem compensation_order_cut_short:
  "first_failure (order_bus [''Notify'', ''CancelShipment'']) (steps shipping_saga) [] 3
     (Error ''failed: Notify'') [''Create'', ''Charge'', ''Ship'', ''Notify'']
   \<and> dispatched (snd (UserCreationSaga_run (order_bus [''Notify'', ''CancelShipment''])
        shipping_saga [])) =
        [cmd ''Create'', cmd ''Charge'', cmd ''Ship'', cmd ''Notify''] @ [cmd ''CancelShipment'']
   \<and> compensations (rev (take 3 (steps shipping_saga))) =
        [cmd ''CancelShipment'', cmd ''Refund'', cmd ''RollbackCreate'']
   \<and> [cmd ''CancelShipment''] \<noteq> [cmd ''CancelShipment'', cmd ''Refund'', cmd ''RollbackCreate'']"
  by code_simp

text \<open>
  C3, amended: if step \<open>k\<close> is the first whose forward action fails, the dispatches
  issued by \<open>run\<close> are the forward actions of steps \<open>0..k\<close> followed by compensation
  dispatches \<open>cs\<close>, where \<open>cs\<close> is a prefix of the list
  \<open>s(k-1).compensate, ..., s0.compensate\<close> (reverse insertion order, absent compensate
  actions omitted), and is exactly that list when every compensation dispatch succeeds.
  The failing step \<open>k\<close> itself is never compensated.
\<close>

theorem run_compensation_order:
  assumes "first_failure bus (steps saga) w k e w1"
    and "dispatch_in_order bus (compensations (rev (take k (steps saga)))) w1 = (r, cs, w2)"
  shows "dispatched (snd (UserCreationSaga_run bus saga w)) =
           map execute (take (Suc k) (steps saga)) @ cs
   \<and> cs = take (length cs) (compensations (rev (take k (steps saga))))
   \<and> (r = Inr () \<longrightarrow> cs = compensations (rev (take k (steps saga))))"
  using run_forward_failed [OF assms] dispatch_in_order_prefix [OF assms(2)]
    dispatch_in_order_ok [of bus _ w1 "()" cs w2] assms(2)
  by simp

theorem run_compensation_order_witness:
  "first_failure (order_bus [''Ship'']) (steps order_saga) [] 2
     (Error ''failed: Ship'') [''Create'', ''Charge'', ''Ship'']
   \<and> dispatch_in_order (order_bus [''Ship''])
        (compensations (rev (take 2 (steps order_saga)))) [''Create'', ''Charge'', ''Ship'']
       = (Inr (), [cmd ''Refund'', cmd ''RollbackCreate''],
          [''Create'', ''Charge'', ''Ship'', ''Refund'', ''RollbackCreate''])
   \<and> dispatched (snd (UserCreationSaga_run (order_bus [''Ship'']) order_saga [])) =
        [cmd ''Create'', cmd ''Charge'', cmd ''Ship'', cmd ''Refund'', cmd ''RollbackCreate'']
   \<and> [cmd ''Refund'', cmd ''RollbackCreate''] =
        compensations (rev (take 2 (steps order_saga)))"
proof -
  have f: "first_failure (order_bus [''Ship'']) (steps order_saga) [] 2
     (Error ''failed: Ship'') [''Create'', ''Charge'', ''Ship'']"
    by code_simp
  have c: "dispatch_in_order (order_bus [''Ship''])
        (compensations (rev (take 2 (steps order_saga)))) [''Create'', ''Charge'', ''Ship'']
       = (Inr (), [cmd ''Refund'', cmd ''RollbackCreate''],
          [''Create'', ''Charge'', ''Ship'', ''Refund'', ''RollbackCreate''])"
    by code_simp
  have t: "map execute (take (Suc 2) (steps order_saga)) =
      [cmd ''Create'', cmd ''Charge'', cmd ''Ship'']"
    by code_simp
  note inst = run_compensation_order [OF f c]
  from inst t
  have 1: "dispatched (snd (UserCreationSaga_run (order_bus [''Ship'']) order_saga [])) =
        [cmd ''Create'', cmd ''Charge'', cmd ''Ship'', cmd ''Refund'', cmd ''RollbackCreate'']"
    by simp
  from inst
  have 2: "[cmd ''Refund'', cmd ''RollbackCreate''] =
        compensations (rev (take 2 (steps order_saga)))"
    by blast
  from f c 1 2 show ?thesis by blast
qed

section \<open>Theorems about the repository of the command/query-bus file\<close>

lemma users_fold_save:
  "InMemoryUserRepository.users (fold InMemoryUserRepository_save us repo) =
     InMemoryUserRepository.users repo @ us"
  by (induction us arbitrary: repo) (simp_all add: InMemoryUserRepository_save_def)

text \<open>
  C10: \<open>save\<close> appends unconditionally, so after saving the users \<open>us\<close> in order the
  store holds exactly \<open>us\<close>, users with equal emails included; \<open>findByEmail\<close> returns
  the earliest-saved user whose email equals the argument, and returns \<open>null\<close>
  (\<open>None\<close>, not an error) exactly when no saved user has that email.
\<close>

theorem findByEmail_earliest_saved:
  "InMemoryUserRepository.users (InMemoryUserRepository_save user repo) =
     InMemoryUserRepository.users repo @ [user]
   \<and> InMemoryUserRepository.users (fold InMemoryUserRepository_save us new_InMemoryUserRepository) = us
   \<and> (findByEmail e (fold InMemoryUserRepository_save us new_InMemoryUserRepository) = Some u \<longleftrightarrow>
        (\<exists>i<length us. us ! i = u \<and> email u = e \<and> (\<forall>j<i. email (us ! j) \<noteq> e)))
   \<and> (findByEmail e (fold InMemoryUserRepository_save us new_InMemoryUserRepository) = None \<longleftrightarrow>
        (\<forall>i<length us. email (us ! i) \<noteq> e))"
proof (intro conjI)
  let ?r = "fold InMemoryUserRepository_save us new_InMemoryUserRepository"
  show "InMemoryUserRepository.users (InMemoryUserRepository_save user repo) =
     InMemoryUserRepository.users repo @ [user]"
    by (simp add: InMemoryUserRepository_save_def)
  show us: "InMemoryUserRepository.users ?r = us"
    by (simp add: users_fold_save new_InMemoryUserRepository_def)
  show "findByEmail e ?r = Some u \<longleftrightarrow>
        (\<exists>i<length us. us ! i = u \<and> email u = e \<and> (\<forall>j<i. email (us ! j) \<noteq> e))"
    unfolding findByEmail_def us find_Some_iff by auto
  show "findByEmail e ?r = None \<longleftrightarrow> (\<forall>i<length us. email (us ! i) \<noteq> e)"
    unfolding findByEmail_def us find_None_iff by (auto simp: in_set_conv_nth)
qed

theorem findByEmail_earliest_saved_witness:
  "InMemoryUserRepository.users
     (fold InMemoryUserRepository_save [jane, john, johnny] new_InMemoryUserRepository) =
     [jane, john, johnny]
   \<and> email john = email johnny \<and> john \<noteq> johnny
   \<and> findByEmail ''john@example.com''
       (fold InMemoryUserRepository_save [jane, john, johnny] new_InMemoryUserRepository) = Some john
   \<and> findByEmail ''nobody@example.com''
       (fold InMemoryUserRepository_save [jane, john, johnny] new_InMemoryUserRepository) = None"
proof -
  let ?us = "[jane, john, johnny]"
  have e: "email john = email johnny \<and> john \<noteq> johnny" by (simp add: john_def johnny_def)
  have "\<exists>i<length ?us. ?us ! i = john \<and> email john = ''john@example.com'' \<and>
          (\<forall>j<i. email (?us ! j) \<noteq> ''john@example.com'')"
    by (rule exI [of _ 1]) (simp add: john_def jane_def)
  with findByEmail_earliest_saved [of _ _ ?us "''john@example.com''" john]
  have 1: "findByEmail ''john@example.com''
       (fold InMemoryUserRepository_save ?us new_InMemoryUserRepository) = Some john"
    by blast
  have "\<forall>i<length ?us. email (?us ! i) \<noteq> ''nobody@example.com''"
    by (simp add: john_def jane_def johnny_def nth_Cons' All_less_Suc numeral_3_eq_3)
  with findByEmail_earliest_saved [of _ _ ?us "''nobody@example.com''"]
  have 2: "findByEmail ''nobody@example.com''
       (fold InMemoryUserRepository_save ?us new_InMemoryUserRepository) = None"
    by blast
  from findByEmail_earliest_saved [of _ _ ?us] have 3: "InMemoryUserRepository.users
     (fold InMemoryUserRepository_save ?us new_InMemoryUserRepository) = ?us"
    by blast
  from 1 2 3 e show ?thesis by blast
qed

section \<open>Theorems about the mediator's repository\<close>

text \<open>
  C9: for an email that is not a key of the user map, \<open>deleteByEmail\<close> is a no-op: the
  repository is unchanged and the mediator is not notified (its state is unchanged,
  whatever the mediator), so with \<open>UserMediator\<close> nothing is written and no account
  closure email is sent. The mediator is notified of \<open>UserDeleted\<close> only when a stored
  user was found, and that user is then removed from the map.
\<close>

theorem deleteByEmail_absent_is_noop:
  "(users repo e = None \<longrightarrow> deleteByEmail e repo n = (repo, n))
   \<and> (\<forall>user. users repo e = Some user \<longrightarrow>
         deleteByEmail e repo n =
           (repo\<lparr>users := (users repo)(e := None)\<rparr>, mediator repo user ''UserDeleted'' n))
   \<and> (users r e = None \<longrightarrow> mediator r = UserMediator_notify \<longrightarrow>
         snd (deleteByEmail e r out) = out)
   \<and> (\<forall>user. users r e = Some user \<longrightarrow> mediator r = UserMediator_notify \<longrightarrow>
         snd (deleteByEmail e r out) =
           out @ [''Mediator handling UserDeleted event.'',
                  ''Sending account closure email to '' @ email user])
   \<and> (snd (deleteByEmail e repo n) \<noteq> n \<longrightarrow>
         (\<exists>user. users repo e = Some user
            \<and> users (fst (deleteByEmail e repo n)) = (users repo)(e := None)
            \<and> snd (deleteByEmail e repo n) = mediator repo user ''UserDeleted'' n))"
  by (cases "users repo e"; cases "users r e")
    (simp_all add: deleteByEmail_def UserMediator_notify_def sendAccountClosureEmail_def)

theorem deleteByEmail_absent_is_noop_witness:
  "users (fst (UserRepository_save jane (new_UserRepository recording_mediator) []))
     ''john@example.com'' = None
   \<and> deleteByEmail ''john@example.com''
        (fst (UserRepository_save jane (new_UserRepository recording_mediator) []))
        [(jane, ''UserCreated'')]
       = (fst (UserRepository_save jane (new_UserRepository recording_mediator) []),
          [(jane, ''UserCreated'')])
   \<and> users (fst (UserRepository_save jane (new_UserRepository recording_mediator) []))
       ''jane@example.com'' = Some jane
   \<and> snd (deleteByEmail ''jane@example.com''
        (fst (UserRepository_save jane (new_UserRepository recording_mediator) []))
        [(jane, ''UserCreated'')])
       = [(jane, ''UserCreated''), (jane, ''UserDeleted'')]
   \<and> users (fst (deleteByEmail ''jane@example.com''
        (fst (UserRepository_save jane (new_UserRepository recording_mediator) []))
        [(jane, ''UserCreated'')])) ''jane@example.com'' = None
   \<and> mediator (fst (UserRepository_save jane (new_UserRepository UserMediator_notify) []))
       = UserMediator_notify
   \<and> snd (deleteByEmail ''john@example.com''
        (fst (UserRepository_save jane (new_UserRepository UserMediator_notify) []))
        [''Mediator handling UserCreated event.'',
         ''Sending welcome email to jane@example.com''])
       = [''Mediator handling UserCreated event.'',
          ''Sending welcome email to jane@example.com'']
   \<and> snd (deleteByEmail ''jane@example.com''
        (fst (UserRepository_save jane (new_UserRepository UserMediator_notify) []))
        [''Mediator handling UserCreated event.'',
         ''Sending welcome email to jane@example.com''])
       = [''Mediator handling UserCreated event.'',
          ''Sending welcome email to jane@example.com'',
          ''Mediator handling UserDeleted event.'',
          ''Sending account closure email to jane@example.com'']"
proof -
  let ?repo = "fst (UserRepository_save jane (new_UserRepository recording_mediator) [])"
  let ?r = "fst (UserRepository_save jane (new_UserRepository UserMediator_notify) [])"
  let ?log = "[(jane, ''UserCreated'')]"
  let ?out = "[''Mediator handling UserCreated event.'',
               ''Sending welcome email to jane@example.com'']"
  note inst_absent =
    deleteByEmail_absent_is_noop [of ?repo "''john@example.com''" ?log ?r ?out]
  note inst_stored =
    deleteByEmail_absent_is_noop [of ?repo "''jane@example.com''" ?log ?r ?out]
  have a: "users ?repo ''john@example.com'' = None"
    by (simp add: UserRepository_save_def new_UserRepository_def jane_def)
  have p: "users ?repo ''jane@example.com'' = Some jane"
    by (simp add: UserRepository_save_def new_UserRepository_def jane_def)
  have m: "mediator ?repo = recording_mediator"
    by (simp add: UserRepository_save_def new_UserRepository_def)
  have a': "users ?r ''john@example.com'' = None"
    by (simp add: UserRepository_save_def new_UserRepository_def jane_def)
  have p': "users ?r ''jane@example.com'' = Some jane"
    by (simp add: UserRepository_save_def new_UserRepository_def jane_def)
  have m': "mediator ?r = UserMediator_notify"
    by (simp add: UserRepository_save_def new_UserRepository_def)
  from inst_absent a
  have 1: "deleteByEmail ''john@example.com'' ?repo ?log = (?repo, ?log)"
    by blast
  from inst_stored p
  have d: "deleteByEmail ''jane@example.com'' ?repo ?log =
      (?repo\<lparr>users := (users ?repo)(''jane@example.com'' := None)\<rparr>,
       mediator ?repo jane ''UserDeleted'' ?log)"
    by blast
  then have 2: "snd (deleteByEmail ''jane@example.com'' ?repo ?log)
       = [(jane, ''UserCreated''), (jane, ''UserDeleted'')]"
    by (simp add: m recording_mediator_def)
  then have "snd (deleteByEmail ''jane@example.com'' ?repo ?log) \<noteq> ?log" by simp
  with inst_stored
  have "users (fst (deleteByEmail ''jane@example.com'' ?repo ?log)) =
          (users ?repo)(''jane@example.com'' := None)"
    by blast
  then have 3: "users (fst (deleteByEmail ''jane@example.com'' ?repo ?log))
                  ''jane@example.com'' = None"
    by simp
  from inst_absent a' m'
  have 4: "snd (deleteByEmail ''john@example.com'' ?r ?out) = ?out"
    by blast
  from inst_stored p' m'
  have "snd (deleteByEmail ''jane@example.com'' ?r ?out) =
          ?out @ [''Mediator handling UserDeleted event.'',
                  ''Sending account closure email to '' @ email jane]"
    by blast
  then have 5: "snd (deleteByEmail ''jane@example.com'' ?r ?out) =
      [''Mediator handling UserCreated event.'',
       ''Sending welcome email to jane@example.com'',
       ''Mediator handling UserDeleted event.'',
       ''Sending account closure email to jane@example.com'']"
    by (simp add: jane_def)
  from a 1 p 2 3 m' 4 5 show ?thesis by blast
qed

end
